theory Spec2Isabelle
  imports Main "HOL-Library.Word" "HOL-Library.AList"
begin

section \<open>Data model of cluster-controller/status.go\<close>

subsection \<open>Platform objects read from the informer caches\<close>

text \<open>
  \<^verbatim>\<open>metav1.Time\<close> wraps \<^verbatim>\<open>time.Time\<close>. An instant is modelled as its signed
  distance from Go's zero time (January 1, year 1, 00:00:00 UTC); \<^verbatim>\<open>IsZero\<close> holds of
  exactly that instant and \<^verbatim>\<open>Before\<close> compares instants.
\<close>

type_synonym Time = int

definition IsZero :: "Time \<Rightarrow> bool" where
  "IsZero t = (t = 0)"

definition Before :: "Time \<Rightarrow> Time \<Rightarrow> bool" where
  "Before t u = (t < u)"

record ObjectReference =
  ref_Kind :: string
  ref_Namespace :: string
  ref_Name :: string
  ref_FieldPath :: string

record Event =
  InvolvedObject :: ObjectReference
  event_Reason :: string
  LastTimestamp :: Time

record ContainerStateWaiting =
  waiting_Reason :: string
  waiting_Message :: string

record ContainerStateRunning =
  StartedAt :: Time

record ContainerStateTerminated =
  terminated_Reason :: string
  terminated_Message :: string

text \<open>The three members are pointers in Go; \<open>None\<close> is the nil pointer.\<close>

record ContainerState =
  Waiting :: "ContainerStateWaiting option"
  Running :: "ContainerStateRunning option"
  Terminated :: "ContainerStateTerminated option"

record ContainerStatus =
  container_Name :: string
  State :: ContainerState
  Ready :: bool
  RestartCount :: "32 word"

text \<open>\<^verbatim>\<open>corev1.PodPhase\<close> and \<^verbatim>\<open>corev1.NamespacePhase\<close> are string types.\<close>

definition PodPending :: string where "PodPending = ''Pending''"
definition PodRunning :: string where "PodRunning = ''Running''"
definition PodSucceeded :: string where "PodSucceeded = ''Succeeded''"
definition PodFailed :: string where "PodFailed = ''Failed''"
definition NamespaceTerminating :: string where "NamespaceTerminating = ''Terminating''"

record PodStatus =
  pod_Phase :: string
  InitContainerStatuses :: "ContainerStatus list"
  ContainerStatuses :: "ContainerStatus list"

record Pod =
  pod_Namespace :: string
  pod_Name :: string
  pod_Labels :: "string \<rightharpoonup> string"
  pod_Status :: PodStatus

record Namespace =
  namespace_Name :: string
  namespace_Phase :: string

subsection \<open>Status vocabulary\<close>

text \<open>
  Modelled from the spec: the generated package \<^verbatim>\<open>pkg/proto/cluster\<close> is not part of the
  sources at hand. Section 3 of the specification enumerates the phases of a sandbox and
  of a service and the fields of the two status messages.
\<close>

datatype SandboxPhase = SandboxStatus_DOES_NOT_EXIST | SandboxStatus_TERMINATING | SandboxStatus_RUNNING

datatype ServicePhase =
    ServicePhase_INITIALIZING_VOLUMES
  | ServicePhase_WAIT_DEPENDS_ON
  | ServicePhase_WAIT_SYNC_BIND
  | ServicePhase_PENDING
  | ServicePhase_RUNNING
  | ServicePhase_UNHEALTHY
  | ServicePhase_EXITED
  | ServicePhase_UNKNOWN

record ServiceStatus =
  Phase :: ServicePhase
  Msg :: string
  HasStarted :: bool

record SandboxStatus =
  sandbox_Phase :: SandboxPhase
  Services :: "string \<rightharpoonup> ServiceStatus"

definition imagePullFailureMsg :: string where
  "imagePullFailureMsg =
     ''Failed to pull image. Make sure that the image exists, '' @
     ''and that Blimp has access to it.''"

definition imagePullingMsg :: string where
  "imagePullingMsg = ''Pulling image''"

subsection \<open>Declarations the file uses from elsewhere\<close>

text \<open>
  The five container-name constants are declared in another file of package main, and
  the variable \<^verbatim>\<open>phase\<close> of \<^verbatim>\<open>getServiceStatus\<close> starts at the zero value of the
  generated enumeration; \<^verbatim>\<open>kerrors.IsNotFound\<close> belongs to the platform library. They
  are parameters of the model. \<open>'e\<close> is the type of the errors the listers return.
\<close>

record 'e deps =
  ContainerNameCopyBusybox :: string
  ContainerNameCopyVCP :: string
  ContainerNameInitializeVolumeFromImage :: string
  ContainerNameWaitDependsOn :: string
  ContainerNameWaitInitialSync :: string
  ServicePhase_zero :: ServicePhase
  IsNotFound :: "'e \<Rightarrow> bool"

text \<open>
  Modelled from the spec: \<^verbatim>\<open>errors.WithContext\<close> of \<^verbatim>\<open>pkg/errors\<close> is not part of the
  sources at hand. Section 7 of the specification says that a platform error is wrapped
  with operation context and returned to the caller; the wrapped error keeps the
  context string and the cause.
\<close>

datatype 'e context_error = WithContext string 'e

subsection \<open>The status fetcher\<close>

text \<open>
  A channel of \<^verbatim>\<open>struct{}\<close> carries no payload: its state is its capacity and the
  number of buffered signals. Channels are objects shared between the registry and the
  subscribers, so they live in a heap and the registry holds references to them.
\<close>

record chan =
  chan_cap :: nat
  chan_len :: nat

type_synonym chan_ref = nat

text \<open>
  The listers are the synchronous read surface of the three informer caches:
  \<open>namespaceLister sf name\<close> is \<^verbatim>\<open>sf.namespaceLister.Get(name)\<close>,
  \<open>podLister sf namespace set\<close> is
  \<^verbatim>\<open>sf.podLister.Pods(namespace).List(labels.Set(set).AsSelector())\<close> and
  \<open>eventsLister sf namespace\<close> is
  \<^verbatim>\<open>sf.eventsLister.Events(namespace).List(labels.Everything())\<close>.
  \<open>watchers\<close> maps a namespace to its inner map from watcher id to channel; the inner
  map is an association list with distinct keys because \<^verbatim>\<open>notifyWatchers\<close> ranges
  over it. Go's \<^verbatim>\<open>int\<close> counter is a 64-bit machine integer. \<open>chanHeap\<close> holds the
  channels that \<^verbatim>\<open>make\<close> has allocated; a reference is an index into it.
\<close>

record 'e statusFetcher =
  podLister :: "string \<Rightarrow> (string \<times> string) list \<Rightarrow> 'e + Pod list"
  eventsLister :: "string \<Rightarrow> 'e + Event list"
  namespaceLister :: "string \<Rightarrow> 'e + Namespace"
  watchers :: "string \<rightharpoonup> (64 word \<times> chan_ref) list"
  idCtr :: "64 word"
  chanHeap :: "chan list"

section \<open>Pull detection\<close>

text \<open>The guard of the \<^verbatim>\<open>continue\<close> in the event loop of \<^verbatim>\<open>isPulling\<close>, negated.\<close>

definition involves :: "string \<Rightarrow> string \<Rightarrow> string \<Rightarrow> Event \<Rightarrow> bool" where
  "involves namespace pod fieldPath event =
     (\<not> (ref_Kind (InvolvedObject event) \<noteq> ''Pod'' \<or>
         ref_Namespace (InvolvedObject event) \<noteq> namespace \<or>
         ref_Name (InvolvedObject event) \<noteq> pod \<or>
         ref_FieldPath (InvolvedObject event) \<noteq> fieldPath))"

text \<open>The loop over the events, carrying \<^verbatim>\<open>pullStarted\<close> and \<^verbatim>\<open>pullCompleted\<close>.\<close>

fun scanEvents :: "string \<Rightarrow> string \<Rightarrow> string \<Rightarrow> Event list \<Rightarrow> Time \<times> Time \<Rightarrow> Time \<times> Time" where
  "scanEvents namespace pod fieldPath [] acc = acc"
| "scanEvents namespace pod fieldPath (event # events) (pullStarted, pullCompleted) =
     (if \<not> involves namespace pod fieldPath event
      then scanEvents namespace pod fieldPath events (pullStarted, pullCompleted)
      else if event_Reason event = ''Pulling''
      then scanEvents namespace pod fieldPath events
             (if IsZero pullStarted \<or> Before pullStarted (LastTimestamp event)
              then LastTimestamp event else pullStarted,
              pullCompleted)
      else if event_Reason event = ''Pulled''
      then scanEvents namespace pod fieldPath events
             (pullStarted,
              if IsZero pullCompleted \<or> Before pullCompleted (LastTimestamp event)
              then LastTimestamp event else pullCompleted)
      else scanEvents namespace pod fieldPath events (pullStarted, pullCompleted))"

definition isPulling :: "'e statusFetcher \<Rightarrow> string \<Rightarrow> string \<Rightarrow> string \<Rightarrow> bool" where
  "isPulling sf namespace pod fieldPath =
     (case eventsLister sf namespace of
        Inl err \<Rightarrow> False
      | Inr events \<Rightarrow>
          (case scanEvents namespace pod fieldPath events (0, 0) of
             (pullStarted, pullCompleted) \<Rightarrow>
               if IsZero pullStarted then False
               else IsZero pullCompleted \<or> Before pullCompleted pullStarted))"

text \<open>
  The timestamps of the listed events that involve the given container slot and carry
  the given reason, in list order.
\<close>

definition stamps :: "string \<Rightarrow> string \<Rightarrow> string \<Rightarrow> string \<Rightarrow> Event list \<Rightarrow> Time list" where
  "stamps reason namespace pod fieldPath events =
     map LastTimestamp
       (filter (\<lambda>event. involves namespace pod fieldPath event \<and> event_Reason event = reason) events)"


text \<open>
  The update of \<^verbatim>\<open>pullStarted\<close> and of \<^verbatim>\<open>pullCompleted\<close> folded over a list of
  timestamps: what the loop leaves in a variable that started at \<open>acc\<close>.
\<close>

fun latest :: "Time \<Rightarrow> Time list \<Rightarrow> Time" where
  "latest acc [] = acc"
| "latest acc (t # ts) = latest (if IsZero acc \<or> Before acc t then t else acc) ts"

section \<open>The classifier\<close>

definition isImagePullFailure :: "ContainerStatus \<Rightarrow> bool" where
  "isImagePullFailure cs =
     (case Waiting (State cs) of
        None \<Rightarrow> False
      | Some w \<Rightarrow> waiting_Reason w = ''ErrImagePull'' \<or> waiting_Reason w = ''ImagePullBackOff'')"

text \<open>The \<^verbatim>\<open>switch c.Name\<close> at the head of the init-container loop.\<close>

definition initPhase :: "'e deps \<Rightarrow> string \<Rightarrow> ServicePhase" where
  "initPhase d name =
     (if name = ContainerNameCopyBusybox d \<or> name = ContainerNameCopyVCP d \<or>
         name = ContainerNameInitializeVolumeFromImage d
      then ServicePhase_INITIALIZING_VOLUMES
      else if name = ContainerNameWaitDependsOn d then ServicePhase_WAIT_DEPENDS_ON
      else if name = ContainerNameWaitInitialSync d then ServicePhase_WAIT_SYNC_BIND
      else ServicePhase_zero d)"

text \<open>
  One iteration of the init-container loop for the pod with the given namespace and
  name: \<open>None\<close> is \<^verbatim>\<open>continue\<close>, \<open>Some st\<close> is \<^verbatim>\<open>return st\<close>.
\<close>

definition initContainerStep ::
  "'e deps \<Rightarrow> 'e statusFetcher \<Rightarrow> string \<Rightarrow> string \<Rightarrow> ContainerStatus \<Rightarrow> ServiceStatus option" where
  "initContainerStep d sf namespace name c =
     (let phase = initPhase d (container_Name c) in
      case Terminated (State c) of
        Some t \<Rightarrow>
          if terminated_Reason t = ''Completed'' then None
          else Some \<lparr>Phase = phase,
                     Msg = ''Unexpected system error: '' @ terminated_Message t,
                     HasStarted = False\<rparr>
      | None \<Rightarrow>
          if container_Name c = ContainerNameInitializeVolumeFromImage d
          then
            (if isImagePullFailure c
             then Some \<lparr>Phase = ServicePhase_PENDING, Msg = imagePullFailureMsg, HasStarted = False\<rparr>
             else if isPulling sf namespace name
                       (''spec.initContainers{'' @ ContainerNameInitializeVolumeFromImage d @ ''}'')
             then Some \<lparr>Phase = ServicePhase_PENDING, Msg = imagePullingMsg, HasStarted = False\<rparr>
             else Some \<lparr>Phase = phase, Msg = [], HasStarted = False\<rparr>)
          else Some \<lparr>Phase = phase, Msg = [], HasStarted = False\<rparr>)"

fun initContainerLoop ::
  "'e deps \<Rightarrow> 'e statusFetcher \<Rightarrow> string \<Rightarrow> string \<Rightarrow> ContainerStatus list \<Rightarrow> ServiceStatus option" where
  "initContainerLoop d sf namespace name [] = None"
| "initContainerLoop d sf namespace name (c # cs) =
     (case initContainerStep d sf namespace name c of
        None \<Rightarrow> initContainerLoop d sf namespace name cs
      | Some st \<Rightarrow> Some st)"

text \<open>
  The \<^verbatim>\<open>switch\<close> on the state of the single main container; \<open>None\<close> when no case
  applies and control falls through to the pod's phase.
\<close>

definition containerStatus ::
  "'e statusFetcher \<Rightarrow> string \<Rightarrow> string \<Rightarrow> ContainerStatus \<Rightarrow> ServiceStatus option" where
  "containerStatus sf namespace name cs =
     (case Running (State cs) of
        Some r \<Rightarrow>
          if \<not> Ready cs
          then Some \<lparr>Phase = ServicePhase_UNHEALTHY, Msg = [], HasStarted = True\<rparr>
          else Some \<lparr>Phase = ServicePhase_RUNNING, Msg = [], HasStarted = True\<rparr>
      | None \<Rightarrow>
          (case Waiting (State cs) of
             Some w \<Rightarrow>
               if isImagePullFailure cs
               then Some \<lparr>Phase = ServicePhase_PENDING, Msg = imagePullFailureMsg, HasStarted = False\<rparr>
               else if isPulling sf namespace name (''spec.containers{'' @ container_Name cs @ ''}'')
               then Some \<lparr>Phase = ServicePhase_PENDING, Msg = imagePullingMsg,
                          HasStarted = (0 <s RestartCount cs)\<rparr>
               else Some \<lparr>Phase = ServicePhase_PENDING, Msg = waiting_Message w,
                          HasStarted = (0 <s RestartCount cs)\<rparr>
           | None \<Rightarrow>
               (case Terminated (State cs) of
                  Some t \<Rightarrow>
                    Some \<lparr>Phase = ServicePhase_EXITED, Msg = terminated_Message t, HasStarted = True\<rparr>
                | None \<Rightarrow> None)))"

text \<open>The final \<^verbatim>\<open>switch pod.Status.Phase\<close>.\<close>

definition phaseFallback :: "string \<Rightarrow> ServiceStatus" where
  "phaseFallback phase =
     (if phase = PodRunning then \<lparr>Phase = ServicePhase_RUNNING, Msg = [], HasStarted = False\<rparr>
      else if phase = PodPending then \<lparr>Phase = ServicePhase_PENDING, Msg = [], HasStarted = False\<rparr>
      else if phase = PodSucceeded \<or> phase = PodFailed
      then \<lparr>Phase = ServicePhase_EXITED, Msg = [], HasStarted = False\<rparr>
      else \<lparr>Phase = ServicePhase_UNKNOWN, Msg = [], HasStarted = False\<rparr>)"

definition getServiceStatus :: "'e deps \<Rightarrow> 'e statusFetcher \<Rightarrow> Pod \<Rightarrow> ServiceStatus" where
  "getServiceStatus d sf pod =
     (case initContainerLoop d sf (pod_Namespace pod) (pod_Name pod)
             (InitContainerStatuses (pod_Status pod)) of
        Some st \<Rightarrow> st
      | None \<Rightarrow>
          (case (case ContainerStatuses (pod_Status pod) of
                   [cs] \<Rightarrow> containerStatus sf (pod_Namespace pod) (pod_Name pod) cs
                 | _ \<Rightarrow> None) of
             Some st \<Rightarrow> st
           | None \<Rightarrow> phaseFallback (pod_Phase (pod_Status pod))))"

text \<open>An init-container status that the loop skips.\<close>

definition completed :: "ContainerStatus \<Rightarrow> bool" where
  "completed c =
     (case Terminated (State c) of None \<Rightarrow> False | Some t \<Rightarrow> terminated_Reason t = ''Completed'')"

section \<open>The aggregator\<close>

text \<open>Indexing a Go map of strings at an absent key yields the empty string.\<close>

definition svcName :: "Pod \<Rightarrow> string" where
  "svcName pod = (case pod_Labels pod ''blimp.service'' of None \<Rightarrow> [] | Some v \<Rightarrow> v)"

fun collectServices ::
  "'e deps \<Rightarrow> 'e statusFetcher \<Rightarrow> Pod list \<Rightarrow> (string \<rightharpoonup> ServiceStatus) \<Rightarrow> (string \<rightharpoonup> ServiceStatus)" where
  "collectServices d sf [] services = services"
| "collectServices d sf (pod # pods) services =
     collectServices d sf pods (services(svcName pod \<mapsto> getServiceStatus d sf pod))"

definition Get :: "'e deps \<Rightarrow> 'e statusFetcher \<Rightarrow> string \<Rightarrow> 'e context_error + SandboxStatus" where
  "Get d sf namespace =
     (case namespaceLister sf namespace of
        Inl err \<Rightarrow>
          if IsNotFound d err
          then Inr \<lparr>sandbox_Phase = SandboxStatus_DOES_NOT_EXIST, Services = Map.empty\<rparr>
          else Inl (WithContext ''get sandbox'' err)
      | Inr ns \<Rightarrow>
          if namespace_Phase ns = NamespaceTerminating
          then Inr \<lparr>sandbox_Phase = SandboxStatus_TERMINATING, Services = Map.empty\<rparr>
          else
            (case podLister sf namespace [(''blimp.customerPod'', ''true'')] of
               Inl err \<Rightarrow> Inl (WithContext ''get services'' err)
             | Inr pods \<Rightarrow>
                 Inr \<lparr>sandbox_Phase = SandboxStatus_RUNNING,
                      Services = collectServices d sf pods Map.empty\<rparr>))"


section \<open>The watch registry\<close>

definition newStatusFetcher ::
  "(string \<Rightarrow> (string \<times> string) list \<Rightarrow> 'e + Pod list) \<Rightarrow> (string \<Rightarrow> 'e + Event list) \<Rightarrow>
   (string \<Rightarrow> 'e + Namespace) \<Rightarrow> 'e statusFetcher" where
  "newStatusFetcher pods events namespaces =
     \<lparr>podLister = pods, eventsLister = events, namespaceLister = namespaces,
      watchers = Map.empty, idCtr = 0, chanHeap = []\<rparr>"

definition make_chan :: "nat \<Rightarrow> chan" where
  "make_chan n = \<lparr>chan_cap = n, chan_len = 0\<rparr>"

text \<open>
  What a send finds: room in the buffer, or a full buffer, where a plain send statement
  blocks and a \<^verbatim>\<open>select\<close> with a \<^verbatim>\<open>default\<close> case takes the default.
\<close>

datatype outcome = Sent | Dropped | Blocked

definition send :: "chan \<Rightarrow> chan \<times> outcome" where
  "send c = (if chan_len c < chan_cap c then (c\<lparr>chan_len := chan_len c + 1\<rparr>, Sent) else (c, Blocked))"

text \<open>\<^verbatim>\<open>select { case client <- struct{}{}: default: }\<close>\<close>

definition selectSend :: "chan \<Rightarrow> chan \<times> outcome" where
  "selectSend c = (case send c of (c', Blocked) \<Rightarrow> (c, Dropped) | (c', r) \<Rightarrow> (c', r))"

text \<open>The first critical section of \<^verbatim>\<open>Watch\<close>, under \<^verbatim>\<open>idLock\<close>.\<close>

definition nextId :: "'e statusFetcher \<Rightarrow> 64 word \<times> 'e statusFetcher" where
  "nextId sf = (let sf' = sf\<lparr>idCtr := idCtr sf + 1\<rparr> in (idCtr sf', sf'))"

text \<open>
  The second critical section of \<^verbatim>\<open>Watch\<close>, under \<^verbatim>\<open>watchersLock\<close>; it returns the
  reference to the fresh notifier channel.
\<close>

definition addWatcher :: "string \<Rightarrow> 64 word \<Rightarrow> 'e statusFetcher \<Rightarrow> chan_ref \<times> 'e statusFetcher" where
  "addWatcher namespace ident sf =
     (let ws = (case watchers sf namespace of None \<Rightarrow> [] | Some ws \<Rightarrow> ws);
          notifier = length (chanHeap sf)
      in (notifier,
          sf\<lparr>watchers := (watchers sf)(namespace \<mapsto> AList.update ident notifier ws),
             chanHeap := chanHeap sf @ [make_chan 1]\<rparr>))"

text \<open>
  \<^verbatim>\<open>Watch\<close> returns the notifier and the stop handle. The goroutine that waits on
  \<^verbatim>\<open>stop\<close> holds the namespace and the id and calls \<^verbatim>\<open>removeWatcher\<close> with them, so
  the stop handle is that pair.
\<close>

definition Watch :: "string \<Rightarrow> 'e statusFetcher \<Rightarrow> (chan_ref \<times> (string \<times> 64 word)) \<times> 'e statusFetcher" where
  "Watch namespace sf =
     (case nextId sf of
        (ident, sf1) \<Rightarrow>
          (case addWatcher namespace ident sf1 of
             (notifier, sf2) \<Rightarrow> ((notifier, (namespace, ident)), sf2)))"

text \<open>The loop of \<^verbatim>\<open>notifyWatchers\<close> over an inner map, with the outcome of every send.\<close>

fun notifyClients :: "(64 word \<times> chan_ref) list \<Rightarrow> chan list \<Rightarrow> outcome list \<times> chan list" where
  "notifyClients [] heap = ([], heap)"
| "notifyClients ((ident, client) # rest) heap =
     (case selectSend (heap ! client) of
        (c', r) \<Rightarrow>
          (case notifyClients rest (heap[client := c']) of
             (rs, heap') \<Rightarrow> (r # rs, heap')))"

definition notifyWatchers :: "string \<Rightarrow> 'e statusFetcher \<Rightarrow> outcome list \<times> 'e statusFetcher" where
  "notifyWatchers namespace sf =
     (case watchers sf namespace of
        None \<Rightarrow> ([], sf)
      | Some ws \<Rightarrow>
          (case notifyClients ws (chanHeap sf) of
             (rs, heap') \<Rightarrow> (rs, sf\<lparr>chanHeap := heap'\<rparr>)))"

text \<open>\<^verbatim>\<open>removeWatcher\<close> returns the warnings it logs.\<close>

definition removeWatcher :: "string \<Rightarrow> 64 word \<Rightarrow> 'e statusFetcher \<Rightarrow> string list \<times> 'e statusFetcher" where
  "removeWatcher namespace ident sf =
     (case watchers sf namespace of
        None \<Rightarrow> ([''Failed to look up watcher for deletion.''], sf)
      | Some ws \<Rightarrow>
          (let ws' = AList.delete ident ws in
           if length ws' = 0
           then ([], sf\<lparr>watchers := (watchers sf)(namespace := None)\<rparr>)
           else ([], sf\<lparr>watchers := (watchers sf)(namespace \<mapsto> ws')\<rparr>)))"

text \<open>
  The atomic steps of the registry. \<^verbatim>\<open>Watch\<close> is \<open>StepNextId\<close> followed, possibly after
  steps of other callers, by \<open>StepAddWatcher\<close> with the id it got.
\<close>

datatype step =
    StepNextId
  | StepAddWatcher string "64 word"
  | StepNotify string
  | StepRemove string "64 word"

fun exec :: "step \<Rightarrow> 'e statusFetcher \<Rightarrow> 'e statusFetcher" where
  "exec StepNextId sf = snd (nextId sf)"
| "exec (StepAddWatcher namespace ident) sf = snd (addWatcher namespace ident sf)"
| "exec (StepNotify namespace) sf = snd (notifyWatchers namespace sf)"
| "exec (StepRemove namespace ident) sf = snd (removeWatcher namespace ident sf)"

text \<open>Running a schedule of steps; the ids handed out by \<open>StepNextId\<close> are collected in order.\<close>

fun run :: "step list \<Rightarrow> 'e statusFetcher \<Rightarrow> 64 word list \<times> 'e statusFetcher" where
  "run [] sf = ([], sf)"
| "run (StepNextId # steps) sf =
     (case nextId sf of
        (ident, sf') \<Rightarrow> (case run steps sf' of (ids, sf'') \<Rightarrow> (ident # ids, sf'')))"
| "run (st # steps) sf = run steps (exec st sf)"

text \<open>A registration of the given id under the given namespace is live.\<close>

definition registered :: "'e statusFetcher \<Rightarrow> string \<Rightarrow> 64 word \<Rightarrow> bool" where
  "registered sf namespace ident =
     (case watchers sf namespace of None \<Rightarrow> False | Some ws \<Rightarrow> map_of ws ident \<noteq> None)"

text \<open>No namespace entry of the registry holds an empty inner map.\<close>

definition no_empty_entry :: "'e statusFetcher \<Rightarrow> bool" where
  "no_empty_entry sf = (\<forall>namespace ws. watchers sf namespace = Some ws \<longrightarrow> ws \<noteq> [])"

text \<open>The state that a call of \<^verbatim>\<open>Watch\<close>, and of \<^verbatim>\<open>notifyWatchers\<close>, leaves behind.\<close>

definition afterWatch :: "string \<Rightarrow> 'e statusFetcher \<Rightarrow> 'e statusFetcher" where
  "afterWatch namespace sf = snd (Watch namespace sf)"

definition afterNotify :: "string \<Rightarrow> 'e statusFetcher \<Rightarrow> 'e statusFetcher" where
  "afterNotify namespace sf = snd (notifyWatchers namespace sf)"

section \<open>Sample inputs\<close>

text \<open>
  Sample values for the parameters: two of the container names are those of the
  end-to-end example of the specification, and errors are strings.
\<close>

definition sampleDeps :: "string deps" where
  "sampleDeps =
     \<lparr>ContainerNameCopyBusybox = ''copy-busybox'',
      ContainerNameCopyVCP = ''copy-vcp'',
      ContainerNameInitializeVolumeFromImage = ''initialize-volume-from-image'',
      ContainerNameWaitDependsOn = ''wait-depends-on'',
      ContainerNameWaitInitialSync = ''wait-initial-sync'',
      ServicePhase_zero = ServicePhase_UNKNOWN,
      IsNotFound = (\<lambda>err. err = ''not found'')\<rparr>"

definition sampleEvent :: "string \<Rightarrow> Time \<Rightarrow> Event" where
  "sampleEvent reason t =
     \<lparr>InvolvedObject =
        \<lparr>ref_Kind = ''Pod'', ref_Namespace = ''sandbox'', ref_Name = ''web'',
         ref_FieldPath = ''spec.containers{web}''\<rparr>,
      event_Reason = reason, LastTimestamp = t\<rparr>"

definition waitingState :: "string \<Rightarrow> string \<Rightarrow> ContainerState" where
  "waitingState reason msg =
     \<lparr>Waiting = Some \<lparr>waiting_Reason = reason, waiting_Message = msg\<rparr>,
      Running = None, Terminated = None\<rparr>"

definition terminatedState :: "string \<Rightarrow> string \<Rightarrow> ContainerState" where
  "terminatedState reason msg =
     \<lparr>Waiting = None, Running = None,
      Terminated = Some \<lparr>terminated_Reason = reason, terminated_Message = msg\<rparr>\<rparr>"

definition sampleContainer :: "string \<Rightarrow> ContainerState \<Rightarrow> 32 word \<Rightarrow> ContainerStatus" where
  "sampleContainer name st restarts =
     \<lparr>container_Name = name, State = st, Ready = False, RestartCount = restarts\<rparr>"

definition samplePod ::
  "string \<Rightarrow> (string \<rightharpoonup> string) \<Rightarrow> string \<Rightarrow> ContainerStatus list \<Rightarrow> ContainerStatus list \<Rightarrow> Pod" where
  "samplePod name labels phase inits containers =
     \<lparr>pod_Namespace = ''sandbox'', pod_Name = name, pod_Labels = labels,
      pod_Status =
        \<lparr>pod_Phase = phase, InitContainerStatuses = inits, ContainerStatuses = containers\<rparr>\<rparr>"

text \<open>
  A fetcher over fixed cache contents: the namespaces \<open>sandbox\<close> (active) and \<open>old\<close>
  (terminating) exist, the lookup of \<open>broken\<close> fails, every other namespace is not
  found; the given pods and events are those of \<open>sandbox\<close>, and the pod lister selects
  by the labels of the set.
\<close>

definition sampleFetcher :: "Pod list \<Rightarrow> Event list \<Rightarrow> string statusFetcher" where
  "sampleFetcher pods events =
     newStatusFetcher
       (\<lambda>namespace set.
          if namespace = ''flaky'' then Inl ''timeout''
          else Inr (filter (\<lambda>pod. pod_Namespace pod = namespace \<and>
                                 list_all (\<lambda>(k, v). pod_Labels pod k = Some v) set) pods))
       (\<lambda>namespace. if namespace = ''sandbox'' then Inr events else Inr [])
       (\<lambda>name.
          if name = ''sandbox'' \<or> name = ''flaky''
          then Inr \<lparr>namespace_Name = name, namespace_Phase = ''Active''\<rparr>
          else if name = ''old'' then Inr \<lparr>namespace_Name = name, namespace_Phase = ''Terminating''\<rparr>
          else if name = ''broken'' then Inl ''connection refused''
          else Inl ''not found'')"

definition busyboxDone :: ContainerStatus where
  "busyboxDone = sampleContainer ''copy-busybox'' (terminatedState ''Completed'' []) 0"

definition dependsFailed :: ContainerStatus where
  "dependsFailed = sampleContainer ''wait-depends-on'' (terminatedState ''Error'' ''exit 1'') 0"

definition volumePullFailed :: ContainerStatus where
  "volumePullFailed =
     sampleContainer ''initialize-volume-from-image'' (waitingState ''ErrImagePull'' ''no such image'') 0"

definition webLabels :: "string \<rightharpoonup> string" where
  "webLabels = [''blimp.customerPod'' \<mapsto> ''true'', ''blimp.service'' \<mapsto> ''web'']"

definition webRunning :: Pod where
  "webRunning = samplePod ''web-1'' webLabels ''Running'' [] []"

definition webPending :: Pod where
  "webPending = samplePod ''web-2'' webLabels ''Pending'' [] []"

definition unlabelled :: Pod where
  "unlabelled = samplePod ''job'' [''blimp.customerPod'' \<mapsto> ''true''] ''Failed'' [] []"

definition systemPod :: Pod where
  "systemPod = samplePod ''dns'' [''blimp.service'' \<mapsto> ''dns''] ''Running'' [] []"

definition leftover :: Pod where
  "leftover = (samplePod ''web-0'' webLabels ''Running'' [] [])\<lparr>pod_Namespace := ''old''\<rparr>"

definition sampleSchedule :: "step list" where
  "sampleSchedule =
     [StepNextId, StepNextId, StepAddWatcher ''b'' 2, StepAddWatcher ''a'' 1,
      StepNotify ''a'', StepRemove ''a'' 1]"


section \<open>Properties of the pull detection\<close>

lemmas sample_defs = sampleDeps_def sampleEvent_def waitingState_def terminatedState_def
  sampleContainer_def samplePod_def sampleFetcher_def newStatusFetcher_def

lemmas sample_defs2 = busyboxDone_def dependsFailed_def volumePullFailed_def webLabels_def

lemmas sample_defs3 = webRunning_def webPending_def unlabelled_def systemPod_def leftover_def


lemma scanEvents_latest:
  "scanEvents namespace pod fieldPath events (a, b) =
     (latest a (stamps ''Pulling'' namespace pod fieldPath events),
      latest b (stamps ''Pulled'' namespace pod fieldPath events))"
  by (induction events arbitrary: a b) (simp_all add: stamps_def)

lemma latest_nonzero:
  "0 \<notin> set ts \<Longrightarrow> acc \<noteq> 0 \<Longrightarrow> latest acc ts = Max (insert acc (set ts))"
proof (induction ts arbitrary: acc)
  case Nil
  then show ?case by simp
next
  case (Cons t ts)
  have "latest acc (t # ts) = latest (max acc t) ts"
    using Cons.prems by (simp add: IsZero_def Before_def max_def)
  also have "\<dots> = Max (insert (max acc t) (set ts))"
    using Cons.prems by (intro Cons.IH) (auto simp: max_def)
  also have "\<dots> = Max (insert acc (set (t # ts)))"
    by (cases "set ts = {}") (simp_all add: max.assoc)
  finally show ?case .
qed

lemma latest_zero:
  "0 \<notin> set ts \<Longrightarrow> latest 0 ts = (if ts = [] then 0 else Max (set ts))"
  by (cases ts) (simp_all add: IsZero_def latest_nonzero)

lemma Max_nonzero: "0 \<notin> set ts \<Longrightarrow> ts \<noteq> [] \<Longrightarrow> Max (set ts) \<noteq> (0::int)"
  by (metis List.finite_set Max_in set_empty)

lemma isPulling_list_error:
  "eventsLister sf namespace = Inl err \<Longrightarrow> \<not> isPulling sf namespace pod fieldPath"
  by (simp add: isPulling_def)

text \<open>
  Claim C1, as the code has it. Let the event list of the namespace be read without
  error. \<^verbatim>\<open>isPulling\<close> returns false when no listed event involves the container slot
  (kind \<open>Pod\<close>, the given namespace, pod name and field path) with reason \<open>Pulling\<close>.
  When every such \<open>Pulling\<close> and \<open>Pulled\<close> event carries a timestamp other than the
  zero time, \<^verbatim>\<open>isPulling\<close> returns true exactly when a \<open>Pulling\<close> event exists and
  either no \<open>Pulled\<close> event exists or the latest \<open>Pulled\<close> timestamp is strictly
  earlier than the latest \<open>Pulling\<close> timestamp.
\<close>

theorem isPulling_latest_pull:
  assumes "eventsLister sf namespace = Inr events"
  shows "(stamps ''Pulling'' namespace pod fieldPath events = [] \<longrightarrow>
            \<not> isPulling sf namespace pod fieldPath) \<and>
         (0 \<notin> set (stamps ''Pulling'' namespace pod fieldPath events) \<and>
          0 \<notin> set (stamps ''Pulled'' namespace pod fieldPath events) \<longrightarrow>
            isPulling sf namespace pod fieldPath =
              (stamps ''Pulling'' namespace pod fieldPath events \<noteq> [] \<and>
               (stamps ''Pulled'' namespace pod fieldPath events = [] \<or>
                Max (set (stamps ''Pulled'' namespace pod fieldPath events))
                  < Max (set (stamps ''Pulling'' namespace pod fieldPath events)))))"
proof (intro conjI impI)
  assume "stamps ''Pulling'' namespace pod fieldPath events = []"
  then show "\<not> isPulling sf namespace pod fieldPath"
    using assms by (simp add: isPulling_def scanEvents_latest IsZero_def)
next
  let ?s = "stamps ''Pulling'' namespace pod fieldPath events"
  let ?c = "stamps ''Pulled'' namespace pod fieldPath events"
  assume nz: "0 \<notin> set ?s \<and> 0 \<notin> set ?c"
  have "isPulling sf namespace pod fieldPath =
          (latest 0 ?s \<noteq> 0 \<and> (latest 0 ?c = 0 \<or> latest 0 ?c < latest 0 ?s))"
    using assms by (simp add: isPulling_def scanEvents_latest IsZero_def Before_def)
  also have "\<dots> = (?s \<noteq> [] \<and> (?c = [] \<or> Max (set ?c) < Max (set ?s)))"
    using nz Max_nonzero[of ?s] Max_nonzero[of ?c] by (simp add: latest_zero)
  finally show "isPulling sf namespace pod fieldPath =
     (?s \<noteq> [] \<and> (?c = [] \<or> Max (set ?c) < Max (set ?s)))" .
qed

text \<open>
  The three event lists of the specification's examples: a pull that started after the
  last completion, a completed pull, and no pull at all.
\<close>

theorem isPulling_latest_pull_witness:
  "isPulling (sampleFetcher [] [sampleEvent ''Pulling'' 10, sampleEvent ''Pulled'' 20, sampleEvent ''Pulling'' 30])
     ''sandbox'' ''web'' ''spec.containers{web}'' \<and>
   \<not> isPulling (sampleFetcher [] [sampleEvent ''Pulling'' 10, sampleEvent ''Pulled'' 20])
     ''sandbox'' ''web'' ''spec.containers{web}'' \<and>
   \<not> isPulling (sampleFetcher [] [sampleEvent ''Created'' 10])
     ''sandbox'' ''web'' ''spec.containers{web}''"
  using isPulling_latest_pull
      [of "sampleFetcher [] [sampleEvent ''Pulling'' 10, sampleEvent ''Pulled'' 20, sampleEvent ''Pulling'' 30]"
          "''sandbox''" "[sampleEvent ''Pulling'' 10, sampleEvent ''Pulled'' 20, sampleEvent ''Pulling'' 30]"
          "''web''" "''spec.containers{web}''"]
    isPulling_latest_pull
      [of "sampleFetcher [] [sampleEvent ''Pulling'' 10, sampleEvent ''Pulled'' 20]"
          "''sandbox''" "[sampleEvent ''Pulling'' 10, sampleEvent ''Pulled'' 20]"
          "''web''" "''spec.containers{web}''"]
    isPulling_latest_pull
      [of "sampleFetcher [] [sampleEvent ''Created'' 10]"
          "''sandbox''" "[sampleEvent ''Created'' 10]"
          "''web''" "''spec.containers{web}''"]
  by (simp add: sample_defs stamps_def involves_def)

text \<open>
  Claim C1 as it is written fails for an event whose timestamp is the zero time: the
  event is listed and involves the container slot with reason \<open>Pulling\<close>, no \<open>Pulled\<close>
  event exists, and \<^verbatim>\<open>isPulling\<close> returns false.
\<close>

theorem isPulling_zero_timestamp_counterexample:
  "stamps ''Pulling'' ''sandbox'' ''web'' ''spec.containers{web}'' [sampleEvent ''Pulling'' 0] \<noteq> [] \<and>
   stamps ''Pulled'' ''sandbox'' ''web'' ''spec.containers{web}'' [sampleEvent ''Pulling'' 0] = [] \<and>
   \<not> isPulling (sampleFetcher [] [sampleEvent ''Pulling'' 0]) ''sandbox'' ''web'' ''spec.containers{web}''"
  by (simp add: sample_defs stamps_def involves_def isPulling_def IsZero_def)

section \<open>Properties of the classifier\<close>

lemma step_completed: "completed c \<Longrightarrow> initContainerStep d sf namespace name c = None"
  by (auto simp: completed_def initContainerStep_def split: option.splits)

lemma step_not_completed:
  "\<not> completed c \<Longrightarrow> \<exists>st. initContainerStep d sf namespace name c = Some st"
  by (auto simp: completed_def initContainerStep_def Let_def split: option.splits)

lemma loop_skip:
  "\<forall>x\<in>set pre. completed x \<Longrightarrow>
     initContainerLoop d sf namespace name (pre @ rest) = initContainerLoop d sf namespace name rest"
  by (induction pre) (simp_all add: step_completed)

lemma loop_all_completed:
  "\<forall>x\<in>set cs. completed x \<Longrightarrow> initContainerLoop d sf namespace name cs = None"
  using loop_skip[of cs d sf namespace name "[]"] by simp

lemma loop_decided:
  assumes "\<forall>x\<in>set pre. completed x" and "\<not> completed c"
  shows "initContainerLoop d sf namespace name (pre @ c # post) = initContainerStep d sf namespace name c"
  using assms step_not_completed[of c d sf namespace name]
  by (auto simp: loop_skip)

lemma getServiceStatus_decided:
  assumes "InitContainerStatuses (pod_Status pod) = pre @ c # post"
    and "\<forall>x\<in>set pre. completed x" and "\<not> completed c"
  shows "initContainerStep d sf (pod_Namespace pod) (pod_Name pod) c = Some (getServiceStatus d sf pod)"
  using assms step_not_completed[of c d sf "pod_Namespace pod" "pod_Name pod"]
  by (auto simp: getServiceStatus_def loop_decided)



text \<open>
  Claim C3. Let the blocking container be waiting with reason \<open>ErrImagePull\<close> or
  \<open>ImagePullBackOff\<close>: either it is the volume-initialization init container, it is the
  first init-container status that is not completed, and it is waiting and not
  terminated; or all init-container statuses are completed, the pod has exactly one
  main container status, and that container is waiting and not running. Then the
  classifier returns \<open>PENDING\<close> with the fixed pull-failure message and the started flag
  unset, for every restart count.
\<close>

theorem pull_failure_is_pending:
  assumes "waiting_Reason w = ''ErrImagePull'' \<or> waiting_Reason w = ''ImagePullBackOff''"
    and "(\<exists>pre c post.
            InitContainerStatuses (pod_Status pod) = pre @ c # post \<and>
            (\<forall>x\<in>set pre. completed x) \<and>
            container_Name c = ContainerNameInitializeVolumeFromImage d \<and>
            Waiting (State c) = Some w \<and> Terminated (State c) = None) \<or>
         ((\<forall>x\<in>set (InitContainerStatuses (pod_Status pod)). completed x) \<and>
          (\<exists>cs. ContainerStatuses (pod_Status pod) = [cs] \<and>
                Waiting (State cs) = Some w \<and> Running (State cs) = None))"
  shows "getServiceStatus d sf pod =
           \<lparr>Phase = ServicePhase_PENDING, Msg = imagePullFailureMsg, HasStarted = False\<rparr>"
  using assms(2)
proof (elim disjE exE conjE)
  fix pre c post
  assume h: "InitContainerStatuses (pod_Status pod) = pre @ c # post"
    "\<forall>x\<in>set pre. completed x"
    "container_Name c = ContainerNameInitializeVolumeFromImage d"
    "Waiting (State c) = Some w" "Terminated (State c) = None"
  have nc: "\<not> completed c" using h(5) by (simp add: completed_def)
  have "initContainerStep d sf (pod_Namespace pod) (pod_Name pod) c = Some (getServiceStatus d sf pod)"
    using h(1,2) nc by (rule getServiceStatus_decided)
  then show ?thesis
    using h(3,4,5) assms(1) by (auto simp: initContainerStep_def isImagePullFailure_def)
next
  fix cs
  assume h: "\<forall>x\<in>set (InitContainerStatuses (pod_Status pod)). completed x"
    "ContainerStatuses (pod_Status pod) = [cs]"
    "Waiting (State cs) = Some w" "Running (State cs) = None"
  show ?thesis
    using h assms(1)
    by (auto simp: getServiceStatus_def loop_all_completed containerStatus_def isImagePullFailure_def)
qed

theorem pull_failure_is_pending_witness:
  "getServiceStatus sampleDeps (sampleFetcher [] [])
     (samplePod ''web'' webLabels ''Pending'' [busyboxDone, volumePullFailed] []) =
     \<lparr>Phase = ServicePhase_PENDING, Msg = imagePullFailureMsg, HasStarted = False\<rparr> \<and>
   getServiceStatus sampleDeps (sampleFetcher [] [])
     (samplePod ''web'' webLabels ''Pending'' [busyboxDone]
        [sampleContainer ''web'' (waitingState ''ImagePullBackOff'' ''back-off'') 7]) =
     \<lparr>Phase = ServicePhase_PENDING, Msg = imagePullFailureMsg, HasStarted = False\<rparr>"
proof -
  let ?w1 = "\<lparr>waiting_Reason = ''ErrImagePull'', waiting_Message = ''no such image''\<rparr>"
  let ?w2 = "\<lparr>waiting_Reason = ''ImagePullBackOff'', waiting_Message = ''back-off''\<rparr>"
  let ?pod1 = "samplePod ''web'' webLabels ''Pending'' [busyboxDone, volumePullFailed] []"
  let ?cs = "sampleContainer ''web'' (waitingState ''ImagePullBackOff'' ''back-off'') 7"
  let ?pod2 = "samplePod ''web'' webLabels ''Pending'' [busyboxDone] [?cs]"
  have bb: "completed busyboxDone"
    by (simp add: completed_def sample_defs sample_defs2)
  have r1: "waiting_Reason ?w1 = ''ErrImagePull'' \<or> waiting_Reason ?w1 = ''ImagePullBackOff''"
    by simp
  have "InitContainerStatuses (pod_Status ?pod1) = [busyboxDone] @ volumePullFailed # [] \<and>
        (\<forall>x\<in>set [busyboxDone]. completed x) \<and>
        container_Name volumePullFailed = ContainerNameInitializeVolumeFromImage sampleDeps \<and>
        Waiting (State volumePullFailed) = Some ?w1 \<and> Terminated (State volumePullFailed) = None"
    using bb by (simp add: sample_defs sample_defs2)
  then have h1: "(\<exists>pre c post.
            InitContainerStatuses (pod_Status ?pod1) = pre @ c # post \<and>
            (\<forall>x\<in>set pre. completed x) \<and>
            container_Name c = ContainerNameInitializeVolumeFromImage sampleDeps \<and>
            Waiting (State c) = Some ?w1 \<and> Terminated (State c) = None) \<or>
         ((\<forall>x\<in>set (InitContainerStatuses (pod_Status ?pod1)). completed x) \<and>
          (\<exists>cs. ContainerStatuses (pod_Status ?pod1) = [cs] \<and>
                Waiting (State cs) = Some ?w1 \<and> Running (State cs) = None))"
    by blast
  have r2: "waiting_Reason ?w2 = ''ErrImagePull'' \<or> waiting_Reason ?w2 = ''ImagePullBackOff''"
    by simp
  have "(\<forall>x\<in>set (InitContainerStatuses (pod_Status ?pod2)). completed x) \<and>
        ContainerStatuses (pod_Status ?pod2) = [?cs] \<and>
        Waiting (State ?cs) = Some ?w2 \<and> Running (State ?cs) = None"
    using bb by (simp add: sample_defs)
  then have h2: "(\<exists>pre c post.
            InitContainerStatuses (pod_Status ?pod2) = pre @ c # post \<and>
            (\<forall>x\<in>set pre. completed x) \<and>
            container_Name c = ContainerNameInitializeVolumeFromImage sampleDeps \<and>
            Waiting (State c) = Some ?w2 \<and> Terminated (State c) = None) \<or>
         ((\<forall>x\<in>set (InitContainerStatuses (pod_Status ?pod2)). completed x) \<and>
          (\<exists>cs. ContainerStatuses (pod_Status ?pod2) = [cs] \<and>
                Waiting (State cs) = Some ?w2 \<and> Running (State cs) = None))"
    by blast
  show ?thesis
    using pull_failure_is_pending [OF r1 h1, of "sampleFetcher [] []"]
      pull_failure_is_pending [OF r2 h2, of "sampleFetcher [] []"]
    by simp
qed

text \<open>
  Claim C7. When every init-container status is completed and the pod does not have
  exactly one main container status, or has one with none of the running, waiting and
  terminated members set, the classifier maps the phase of the pod: \<open>Running\<close> to
  \<open>RUNNING\<close>, \<open>Pending\<close> to \<open>PENDING\<close>, \<open>Succeeded\<close> and \<open>Failed\<close> to \<open>EXITED\<close>, and
  anything else to \<open>UNKNOWN\<close>, with no message and the started flag unset.
\<close>

theorem fallback_to_pod_phase:
  assumes "\<forall>x\<in>set (InitContainerStatuses (pod_Status pod)). completed x"
    and "length (ContainerStatuses (pod_Status pod)) \<noteq> 1 \<or>
         (\<exists>cs. ContainerStatuses (pod_Status pod) = [cs] \<and>
               Running (State cs) = None \<and> Waiting (State cs) = None \<and>
               Terminated (State cs) = None)"
  shows "getServiceStatus d sf pod =
           \<lparr>Phase =
              (if pod_Phase (pod_Status pod) = ''Running'' then ServicePhase_RUNNING
               else if pod_Phase (pod_Status pod) = ''Pending'' then ServicePhase_PENDING
               else if pod_Phase (pod_Status pod) = ''Succeeded'' \<or>
                       pod_Phase (pod_Status pod) = ''Failed'' then ServicePhase_EXITED
               else ServicePhase_UNKNOWN),
            Msg = [], HasStarted = False\<rparr>"
proof -
  have "(case ContainerStatuses (pod_Status pod) of
           [cs] \<Rightarrow> containerStatus sf (pod_Namespace pod) (pod_Name pod) cs
         | _ \<Rightarrow> None) = None"
    using assms(2) by (auto simp: containerStatus_def split: list.splits)
  then have "getServiceStatus d sf pod = phaseFallback (pod_Phase (pod_Status pod))"
    using assms(1) by (simp add: getServiceStatus_def loop_all_completed)
  then show ?thesis
    by (simp add: phaseFallback_def PodRunning_def PodPending_def PodSucceeded_def PodFailed_def)
qed

theorem fallback_to_pod_phase_witness:
  "getServiceStatus sampleDeps (sampleFetcher [] [])
     (samplePod ''web'' webLabels ''Succeeded'' [busyboxDone] []) =
     \<lparr>Phase = ServicePhase_EXITED, Msg = [], HasStarted = False\<rparr> \<and>
   getServiceStatus sampleDeps (sampleFetcher [] [])
     (samplePod ''web'' webLabels ''Evicted'' []
        [sampleContainer ''web'' \<lparr>Waiting = None, Running = None, Terminated = None\<rparr> 0]) =
     \<lparr>Phase = ServicePhase_UNKNOWN, Msg = [], HasStarted = False\<rparr>"
proof -
  let ?pod1 = "samplePod ''web'' webLabels ''Succeeded'' [busyboxDone] []"
  let ?cs = "sampleContainer ''web'' \<lparr>Waiting = None, Running = None, Terminated = None\<rparr> 0"
  let ?pod2 = "samplePod ''web'' webLabels ''Evicted'' [] [?cs]"
  have a1: "\<forall>x\<in>set (InitContainerStatuses (pod_Status ?pod1)). completed x"
    by (simp add: completed_def sample_defs sample_defs2)
  have b1: "length (ContainerStatuses (pod_Status ?pod1)) \<noteq> 1 \<or>
         (\<exists>cs. ContainerStatuses (pod_Status ?pod1) = [cs] \<and>
               Running (State cs) = None \<and> Waiting (State cs) = None \<and>
               Terminated (State cs) = None)"
    by (simp add: samplePod_def)
  have a2: "\<forall>x\<in>set (InitContainerStatuses (pod_Status ?pod2)). completed x"
    by (simp add: samplePod_def)
  have b2: "length (ContainerStatuses (pod_Status ?pod2)) \<noteq> 1 \<or>
         (\<exists>cs. ContainerStatuses (pod_Status ?pod2) = [cs] \<and>
               Running (State cs) = None \<and> Waiting (State cs) = None \<and>
               Terminated (State cs) = None)"
    by (simp add: samplePod_def sampleContainer_def)
  show ?thesis
    using fallback_to_pod_phase [OF a1 b1, of sampleDeps "sampleFetcher [] []"]
      fallback_to_pod_phase [OF a2 b2, of sampleDeps "sampleFetcher [] []"]
    by (simp add: samplePod_def)
qed

section \<open>Properties of the aggregator\<close>






text \<open>
  Claim C4. When the namespace lookup fails with a not-found error, \<^verbatim>\<open>Get\<close> returns
  the status \<open>DOES_NOT_EXIST\<close> and no error. When it fails with any other error,
  \<^verbatim>\<open>Get\<close> returns that error wrapped with the context \<open>get sandbox\<close>. When the
  namespace is found and not terminating and listing the pods fails, \<^verbatim>\<open>Get\<close>
  returns that error wrapped with the context \<open>get services\<close>.
\<close>

theorem Get_errors:
  "(namespaceLister sf namespace = Inl err \<and> IsNotFound d err \<longrightarrow>
      Get d sf namespace = Inr \<lparr>sandbox_Phase = SandboxStatus_DOES_NOT_EXIST, Services = Map.empty\<rparr>) \<and>
   (namespaceLister sf namespace = Inl err \<and> \<not> IsNotFound d err \<longrightarrow>
      Get d sf namespace = Inl (WithContext ''get sandbox'' err)) \<and>
   (namespaceLister sf namespace = Inr ns \<and> namespace_Phase ns \<noteq> ''Terminating'' \<and>
    podLister sf namespace [(''blimp.customerPod'', ''true'')] = Inl err \<longrightarrow>
      Get d sf namespace = Inl (WithContext ''get services'' err))"
  by (simp add: Get_def NamespaceTerminating_def)

theorem Get_errors_witness:
  "Get sampleDeps (sampleFetcher [] []) ''missing'' =
     Inr \<lparr>sandbox_Phase = SandboxStatus_DOES_NOT_EXIST, Services = Map.empty\<rparr> \<and>
   Get sampleDeps (sampleFetcher [] []) ''broken'' =
     Inl (WithContext ''get sandbox'' ''connection refused'') \<and>
   Get sampleDeps (sampleFetcher [] []) ''flaky'' = Inl (WithContext ''get services'' ''timeout'')"
  using Get_errors [where sf = "sampleFetcher [] []" and d = sampleDeps and namespace = "''missing''"
      and err = "''not found''"]
    Get_errors [where sf = "sampleFetcher [] []" and d = sampleDeps and namespace = "''broken''"
      and err = "''connection refused''"]
    Get_errors [where sf = "sampleFetcher [] []" and d = sampleDeps and namespace = "''flaky''"
      and err = "''timeout''" and ns = "\<lparr>namespace_Name = ''flaky'', namespace_Phase = ''Active''\<rparr>"]
  by (simp add: sample_defs)

text \<open>
  Claim C5. When the cached phase of the namespace is \<open>Terminating\<close>, \<^verbatim>\<open>Get\<close> returns
  the status \<open>TERMINATING\<close> with no services and no error, whatever the pod lister
  holds. Whenever \<^verbatim>\<open>Get\<close> returns a status whose services map has an entry, the
  phase of that status is \<open>RUNNING\<close>.
\<close>

theorem Get_terminating:
  "(namespaceLister sf namespace = Inr ns \<and> namespace_Phase ns = ''Terminating'' \<longrightarrow>
      Get d sf namespace = Inr \<lparr>sandbox_Phase = SandboxStatus_TERMINATING, Services = Map.empty\<rparr>) \<and>
   (Get d sf namespace = Inr st \<and> Services st \<noteq> Map.empty \<longrightarrow>
      sandbox_Phase st = SandboxStatus_RUNNING)"
  by (auto simp: Get_def NamespaceTerminating_def split: sum.splits if_splits)

theorem Get_terminating_witness:
  "Get sampleDeps (sampleFetcher [leftover] []) ''old'' =
     Inr \<lparr>sandbox_Phase = SandboxStatus_TERMINATING, Services = Map.empty\<rparr> \<and>
   podLister (sampleFetcher [leftover] []) ''old'' [(''blimp.customerPod'', ''true'')] = Inr [leftover] \<and>
   (\<exists>st. Get sampleDeps (sampleFetcher [webRunning] []) ''sandbox'' = Inr st \<and>
         Services st \<noteq> Map.empty \<and> sandbox_Phase st = SandboxStatus_RUNNING)"
proof -
  let ?st = "\<lparr>sandbox_Phase = SandboxStatus_RUNNING,
              Services = collectServices sampleDeps (sampleFetcher [webRunning] []) [webRunning] Map.empty\<rparr>"
  have g: "Get sampleDeps (sampleFetcher [webRunning] []) ''sandbox'' = Inr ?st"
    by (simp add: Get_def NamespaceTerminating_def sample_defs sample_defs2 sample_defs3)
  have "Services ?st ''web'' \<noteq> None"
    by (simp add: svcName_def sample_defs sample_defs2 sample_defs3)
  then have n: "Services ?st \<noteq> Map.empty" by force
  have l: "podLister (sampleFetcher [leftover] []) ''old'' [(''blimp.customerPod'', ''true'')] = Inr [leftover]"
    by (simp add: sample_defs sample_defs2 sample_defs3)
  have t: "namespaceLister (sampleFetcher [leftover] []) ''old'' =
             Inr \<lparr>namespace_Name = ''old'', namespace_Phase = ''Terminating''\<rparr>"
    by (simp add: sample_defs)
  show ?thesis
    using Get_terminating [where sf = "sampleFetcher [leftover] []" and d = sampleDeps
        and namespace = "''old''"
        and ns = "\<lparr>namespace_Name = ''old'', namespace_Phase = ''Terminating''\<rparr>"]
      Get_terminating [where sf = "sampleFetcher [webRunning] []" and d = sampleDeps
        and namespace = "''sandbox''" and st = ?st]
      g n l t
    by auto
qed





section \<open>Properties of the watch registry\<close>

lemma selectSend_eq:
  "selectSend c = (if chan_len c < chan_cap c then (c\<lparr>chan_len := chan_len c + 1\<rparr>, Sent) else (c, Dropped))"
  by (simp add: selectSend_def send_def)

lemma notifyClients_outcomes: "Blocked \<notin> set (fst (notifyClients ws heap))"
  by (induction ws heap rule: notifyClients.induct)
     (auto simp: selectSend_eq split: prod.splits if_splits)

lemma notifyClients_length: "length (snd (notifyClients ws heap)) = length heap"
  by (induction ws heap rule: notifyClients.induct)
     (auto simp: selectSend_eq split: prod.splits if_splits)

lemma notifyClients_signal:
  assumes "ch < length heap" and "chan_cap (heap ! ch) = 1" and "chan_len (heap ! ch) \<le> 1"
    and "ch \<in> snd ` set ws \<or> chan_len (heap ! ch) = 1"
  shows "chan_cap (snd (notifyClients ws heap) ! ch) = 1 \<and>
         chan_len (snd (notifyClients ws heap) ! ch) = 1"
  using assms
proof (induction ws heap rule: notifyClients.induct)
  case (1 heap)
  then show ?case by simp
next
  case (2 ident client rest heap)
  obtain c' r where sel: "selectSend (heap ! client) = (c', r)" by (cases "selectSend (heap ! client)")
  let ?heap1 = "heap[client := c']"
  have res: "snd (notifyClients ((ident, client) # rest) heap) = snd (notifyClients rest ?heap1)"
    using sel by (simp split: prod.splits)
  have a: "ch < length ?heap1" using "2.prems"(1) by simp
  have b: "chan_cap (?heap1 ! ch) = 1 \<and> chan_len (?heap1 ! ch) \<le> 1 \<and>
           (ch \<in> snd ` set rest \<or> chan_len (?heap1 ! ch) = 1)"
  proof (cases "client = ch")
    case True
    then have "?heap1 ! ch = c'" using "2.prems"(1) by simp
    moreover have "chan_cap c' = 1 \<and> chan_len c' = 1"
      using sel True "2.prems"(2,3) by (auto simp: selectSend_eq split: if_splits)
    ultimately show ?thesis by simp
  next
    case False
    then have "?heap1 ! ch = heap ! ch" by simp
    then show ?thesis using "2.prems" False by auto
  qed
  have "chan_cap (snd (notifyClients rest ?heap1) ! ch) = 1 \<and>
        chan_len (snd (notifyClients rest ?heap1) ! ch) = 1"
    using "2.IH"[OF sel[symmetric] a] b by blast
  then show ?case using res by simp
qed

lemma notifyWatchers_alt:
  "notifyWatchers namespace sf =
     (case watchers sf namespace of
        None \<Rightarrow> ([], sf)
      | Some ws \<Rightarrow> (fst (notifyClients ws (chanHeap sf)),
                   sf\<lparr>chanHeap := snd (notifyClients ws (chanHeap sf))\<rparr>))"
  by (simp add: notifyWatchers_def split: option.splits prod.splits)

lemma notifyWatchers_watchers: "watchers (snd (notifyWatchers namespace sf)) = watchers sf"
  by (simp add: notifyWatchers_alt split: option.splits)

lemma notifyWatchers_heap_length:
  "length (chanHeap (snd (notifyWatchers namespace sf))) = length (chanHeap sf)"
  by (simp add: notifyWatchers_alt notifyClients_length split: option.splits)

lemma notifyWatchers_outcomes: "Blocked \<notin> set (fst (notifyWatchers namespace sf))"
  by (simp add: notifyWatchers_alt notifyClients_outcomes split: option.splits)

lemma notifyWatchers_signal:
  assumes "watchers sf namespace = Some ws" and "map_of ws ident = Some ch"
    and "ch < length (chanHeap sf)"
    and "chan_cap (chanHeap sf ! ch) = 1" and "chan_len (chanHeap sf ! ch) \<le> 1"
  shows "chan_cap (chanHeap (snd (notifyWatchers namespace sf)) ! ch) = 1 \<and>
         chan_len (chanHeap (snd (notifyWatchers namespace sf)) ! ch) = 1"
proof -
  have "ch \<in> snd ` set ws" using assms(2) by (force dest: map_of_SomeD)
  then have "chan_cap (snd (notifyClients ws (chanHeap sf)) ! ch) = 1 \<and>
             chan_len (snd (notifyClients ws (chanHeap sf)) ! ch) = 1"
    using assms(3,4,5) by (intro notifyClients_signal) auto
  then show ?thesis using assms(1) by (simp add: notifyWatchers_alt)
qed

lemma notify_repeat:
  assumes "watchers sf namespace = Some ws" and "map_of ws ident = Some ch"
    and "ch < length (chanHeap sf)"
    and "chan_cap (chanHeap sf ! ch) = 1" and "chan_len (chanHeap sf ! ch) \<le> 1"
  shows "watchers ((afterNotify namespace ^^ n) sf) = watchers sf \<and>
         length (chanHeap ((afterNotify namespace ^^ n) sf)) = length (chanHeap sf) \<and>
         chan_cap (chanHeap ((afterNotify namespace ^^ n) sf) ! ch) = 1 \<and>
         chan_len (chanHeap ((afterNotify namespace ^^ n) sf) ! ch) =
           (if n = 0 then chan_len (chanHeap sf ! ch) else 1)"
proof (induction n)
  case 0
  then show ?case using assms by simp
next
  case (Suc n)
  let ?s = "(afterNotify namespace ^^ n) sf"
  have pre: "watchers ?s namespace = Some ws" "ch < length (chanHeap ?s)"
    "chan_cap (chanHeap ?s ! ch) = 1" "chan_len (chanHeap ?s ! ch) \<le> 1"
    using Suc assms by (auto split: if_splits)
  have step: "(afterNotify namespace ^^ Suc n) sf = snd (notifyWatchers namespace ?s)"
    by (simp add: afterNotify_def)
  show ?case
    unfolding step
    using notifyWatchers_signal[OF pre(1) assms(2) pre(2,3,4)] Suc
    by (simp add: notifyWatchers_watchers notifyWatchers_heap_length)
qed

text \<open>
  Right after \<^verbatim>\<open>Watch\<close>, in any state, the notifier it returns is registered under
  the namespace and the new id, and is an empty channel of capacity one.
\<close>

lemma Watch_registers:
  assumes "Watch namespace sf = ((notifier, stop), sf')"
  shows "stop = (namespace, idCtr sf + 1) \<and>
         (\<exists>ws. watchers sf' namespace = Some ws \<and> map_of ws (idCtr sf + 1) = Some notifier) \<and>
         notifier < length (chanHeap sf') \<and>
         chanHeap sf' ! notifier = \<lparr>chan_cap = 1, chan_len = 0\<rparr>"
  using assms
  by (auto simp: Watch_def nextId_def addWatcher_def Let_def make_chan_def update_conv'
           nth_append split: prod.splits)

text \<open>
  Claim C8. Let a subscriber be registered under a namespace with a channel of capacity
  one that holds at most one signal. After \<open>N \<ge> 1\<close> calls of \<^verbatim>\<open>notifyWatchers\<close> for
  that namespace, with no receive in between, the channel holds exactly one signal,
  and in none of these calls does a send block.
\<close>

theorem notify_coalesces:
  assumes "watchers sf namespace = Some ws" and "map_of ws ident = Some ch"
    and "ch < length (chanHeap sf)"
    and "chan_cap (chanHeap sf ! ch) = 1" and "chan_len (chanHeap sf ! ch) \<le> 1"
    and "1 \<le> N"
  shows "chan_len (chanHeap ((afterNotify namespace ^^ N) sf) ! ch) = 1 \<and>
         (\<forall>k<N. Blocked \<notin> set (fst (notifyWatchers namespace ((afterNotify namespace ^^ k) sf))))"
  using notify_repeat[OF assms(1-5), of N] assms(6) notifyWatchers_outcomes
  by auto

lemma sample_watch:
  "Watch ''sandbox'' (sampleFetcher [] []) =
     ((0, (''sandbox'', 1)),
      (sampleFetcher [] [])\<lparr>watchers := [''sandbox'' \<mapsto> [(1, 0)]], idCtr := 1,
                             chanHeap := [\<lparr>chan_cap = 1, chan_len = 0\<rparr>]\<rparr>)"
  by (simp add: Watch_def nextId_def addWatcher_def Let_def make_chan_def sampleFetcher_def
        newStatusFetcher_def)

theorem notify_coalesces_witness:
  "fst (Watch ''sandbox'' (sampleFetcher [] [])) = (0, (''sandbox'', 1)) \<and>
   chan_len (chanHeap (afterWatch ''sandbox'' (sampleFetcher [] [])) ! 0) = 0 \<and>
   chan_len (chanHeap ((afterNotify ''sandbox'' ^^ 3) (afterWatch ''sandbox'' (sampleFetcher [] []))) ! 0) = 1 \<and>
   Blocked \<notin> set (fst (notifyWatchers ''sandbox''
                    ((afterNotify ''sandbox'' ^^ 2) (afterWatch ''sandbox'' (sampleFetcher [] [])))))"
proof -
  let ?sf = "afterWatch ''sandbox'' (sampleFetcher [] [])"
  have 1: "watchers ?sf ''sandbox'' = Some [(1, 0)]"
    by (simp add: afterWatch_def sample_watch)
  have 2: "map_of [(1 :: 64 word, 0 :: nat)] 1 = Some 0" by simp
  have 3: "0 < length (chanHeap ?sf)" by (simp add: afterWatch_def sample_watch)
  have 4: "chan_cap (chanHeap ?sf ! 0) = 1" by (simp add: afterWatch_def sample_watch)
  have 5: "chan_len (chanHeap ?sf ! 0) \<le> 1" by (simp add: afterWatch_def sample_watch)
  have 6: "(1::nat) \<le> 3" by simp
  have 7: "chan_len (chanHeap ?sf ! 0) = 0" by (simp add: afterWatch_def sample_watch)
  have 8: "(2::nat) < 3" by simp
  from notify_coalesces [OF 1 2 3 4 5 6]
  have "chan_len (chanHeap ((afterNotify ''sandbox'' ^^ 3) ?sf) ! 0) = 1"
    and "\<forall>k<3. Blocked \<notin> set (fst (notifyWatchers ''sandbox'' ((afterNotify ''sandbox'' ^^ k) ?sf)))"
    by blast+
  then show ?thesis using 7 8 by (simp add: sample_watch)
qed

lemma exec_no_empty_entry: "no_empty_entry sf \<Longrightarrow> no_empty_entry (exec st sf)"
proof (cases st)
  case StepNextId
  assume "no_empty_entry sf"
  then show ?thesis using StepNextId by (simp add: no_empty_entry_def nextId_def Let_def)
next
  case (StepAddWatcher namespace ident)
  assume "no_empty_entry sf"
  then show ?thesis using StepAddWatcher
    by (auto simp: no_empty_entry_def addWatcher_def Let_def)
next
  case (StepNotify namespace)
  assume "no_empty_entry sf"
  then show ?thesis using StepNotify
    by (simp add: no_empty_entry_def notifyWatchers_watchers)
next
  case (StepRemove namespace ident)
  assume "no_empty_entry sf"
  then show ?thesis using StepRemove
    by (auto simp: no_empty_entry_def removeWatcher_def Let_def split: option.splits if_splits)
qed

lemma run_nextId:
  "run (StepNextId # steps) sf =
     (fst (nextId sf) # fst (run steps (snd (nextId sf))), snd (run steps (snd (nextId sf))))"
  by (simp split: prod.splits)

lemma run_state: "snd (run steps sf) = fold exec steps sf"
proof (induction steps arbitrary: sf)
  case Nil
  then show ?case by simp
next
  case (Cons st steps)
  then show ?case by (cases st) (simp_all add: run_nextId del: run.simps(2))
qed

lemma fold_no_empty_entry: "no_empty_entry sf \<Longrightarrow> no_empty_entry (fold exec steps sf)"
  by (induction steps arbitrary: sf) (simp_all add: exec_no_empty_entry)

lemma exec_idCtr: "st \<noteq> StepNextId \<Longrightarrow> idCtr (exec st sf) = idCtr sf"
  by (cases st)
     (simp_all add: addWatcher_def Let_def notifyWatchers_alt removeWatcher_def split: option.splits)

lemma run_other: "st \<noteq> StepNextId \<Longrightarrow> run (st # steps) sf = run steps (exec st sf)"
  by (cases st) simp_all

lemma run_ids:
  "k < length (fst (run steps sf)) \<Longrightarrow> fst (run steps sf) ! k = idCtr sf + of_nat (Suc k)"
proof (induction steps arbitrary: sf k)
  case Nil
  then show ?case by simp
next
  case (Cons st steps)
  show ?case
  proof (cases "st = StepNextId")
    case True
    let ?sf' = "snd (nextId sf)"
    have i: "fst (nextId sf) = idCtr sf + 1" "idCtr ?sf' = idCtr sf + 1"
      by (simp_all add: nextId_def Let_def)
    have r: "fst (run (st # steps) sf) = fst (nextId sf) # fst (run steps ?sf')"
      using True by (simp add: run_nextId del: run.simps)
    show ?thesis
    proof (cases k)
      case 0
      then show ?thesis using r i by simp
    next
      case (Suc k')
      then have "k' < length (fst (run steps ?sf'))" using Cons.prems r by simp
      then have "fst (run steps ?sf') ! k' = idCtr ?sf' + of_nat (Suc k')"
        by (rule Cons.IH)
      then show ?thesis using r i Suc by simp
    qed
  next
    case False
    then have r: "run (st # steps) sf = run steps (exec st sf)" by (rule run_other)
    then have "k < length (fst (run steps (exec st sf)))" using Cons.prems by simp
    then have "fst (run steps (exec st sf)) ! k = idCtr (exec st sf) + of_nat (Suc k)"
      by (rule Cons.IH)
    then show ?thesis using r False by (simp add: exec_idCtr del: run.simps exec.simps)
  qed
qed

lemma run_ids_distinct:
  assumes "length (fst (run steps sf)) \<le> 2 ^ 64"
  shows "distinct (fst (run steps sf))"
proof -
  let ?ids = "fst (run steps sf)"
  have "?ids ! i \<noteq> ?ids ! j" if "i < j" "j < length ?ids" for i j
  proof -
    have lt: "i < 2 ^ 64" "j < 2 ^ 64" using that assms by auto
    have "(word_of_nat i :: 64 word) \<noteq> word_of_nat j"
      using lt that(1) by (simp add: word_of_nat_eq_iff take_bit_nat_eq_self)
    then show ?thesis using that by (simp add: run_ids)
  qed
  then show ?thesis
    by (metis distinct_conv_nth nat_neq_iff)
qed

lemma delete_Nil_lookup:
  assumes "AList.delete k al = []" and "k' \<noteq> k"
  shows "map_of al k' = None"
proof -
  have "map_of (AList.delete k al) k' = map_of al k'" using assms(2) by simp
  then show ?thesis using assms(1) by simp
qed

lemma registered_remove:
  "registered (snd (removeWatcher namespace ident sf)) namespace' ident' =
     (registered sf namespace' ident' \<and> \<not> (namespace' = namespace \<and> ident' = ident))"
  by (auto simp: registered_def removeWatcher_def Let_def delete_conv' delete_Nil_lookup
           split: option.splits)

text \<open>
  Claim C9, as the code has it. After every schedule of the atomic steps of \<^verbatim>\<open>Watch\<close>,
  \<^verbatim>\<open>notifyWatchers\<close> and \<^verbatim>\<open>removeWatcher\<close> from the empty registry: the ids handed
  out are pairwise distinct as long as no more than \<open>2^64\<close> of them have been handed
  out; a namespace has an entry in the registry exactly when some id is registered
  under it; \<^verbatim>\<open>removeWatcher\<close> on a namespace without an entry changes nothing and logs
  one warning; \<^verbatim>\<open>removeWatcher\<close> removes exactly the given registration; and it
  deletes the entry of the namespace when no other id is registered under it.
\<close>

theorem registry_invariants:
  assumes "run steps (newStatusFetcher pods events namespaces) = (ids, sf)"
  shows "(length ids \<le> 2 ^ 64 \<longrightarrow> distinct ids) \<and>
         (\<forall>namespace. (watchers sf namespace \<noteq> None) = (\<exists>ident. registered sf namespace ident)) \<and>
         (\<forall>namespace ident.
            (watchers sf namespace = None \<longrightarrow>
               removeWatcher namespace ident sf = ([''Failed to look up watcher for deletion.''], sf)) \<and>
            (\<forall>namespace' ident'.
               registered (snd (removeWatcher namespace ident sf)) namespace' ident' =
                 (registered sf namespace' ident' \<and> \<not> (namespace' = namespace \<and> ident' = ident))) \<and>
            ((\<forall>ident'. registered sf namespace ident' \<longrightarrow> ident' = ident) \<longrightarrow>
               watchers (snd (removeWatcher namespace ident sf)) namespace = None))"
proof -
  have ne: "no_empty_entry sf"
    using assms fold_no_empty_entry[of "newStatusFetcher pods events namespaces" steps]
      run_state[of steps "newStatusFetcher pods events namespaces"]
    by (simp add: no_empty_entry_def newStatusFetcher_def)
  have a: "length ids \<le> 2 ^ 64 \<longrightarrow> distinct ids"
    using assms run_ids_distinct[of steps "newStatusFetcher pods events namespaces"] by simp
  have b: "(watchers sf namespace \<noteq> None) = (\<exists>ident. registered sf namespace ident)" for namespace
  proof (cases "watchers sf namespace")
    case None
    then show ?thesis by (simp add: registered_def)
  next
    case (Some ws)
    then have "ws \<noteq> []" using ne by (auto simp: no_empty_entry_def)
    then obtain k v rest where "ws = (k, v) # rest" by (cases ws) auto
    then have "registered sf namespace k" using Some by (simp add: registered_def)
    then show ?thesis using Some by auto
  qed
  have c: "watchers sf namespace = None \<longrightarrow>
               removeWatcher namespace ident sf = ([''Failed to look up watcher for deletion.''], sf)"
    for namespace ident
    by (simp add: removeWatcher_def)
  have d: "(\<forall>ident'. registered sf namespace ident' \<longrightarrow> ident' = ident) \<longrightarrow>
               watchers (snd (removeWatcher namespace ident sf)) namespace = None" for namespace ident
  proof (intro impI, cases "watchers sf namespace")
    case None
    then show "watchers (snd (removeWatcher namespace ident sf)) namespace = None"
      by (simp add: removeWatcher_def)
  next
    case (Some ws)
    assume only: "\<forall>ident'. registered sf namespace ident' \<longrightarrow> ident' = ident"
    have "AList.delete ident ws = []"
    proof (cases "AList.delete ident ws")
      case Nil
      then show ?thesis .
    next
      case (Cons kv rest)
      then have "map_of (AList.delete ident ws) (fst kv) \<noteq> None" by (cases kv) simp
      then have "fst kv \<noteq> ident \<and> map_of ws (fst kv) \<noteq> None"
        by (auto simp: delete_conv' split: if_splits)
      then show ?thesis using only Some by (auto simp: registered_def)
    qed
    then show "watchers (snd (removeWatcher namespace ident sf)) namespace = None"
      using Some by (simp add: removeWatcher_def)
  qed
  show ?thesis using a b c d registered_remove by blast
qed

lemma sample_run:
  "run sampleSchedule (sampleFetcher [] []) =
     ([1, 2],
      (sampleFetcher [] [])\<lparr>watchers := [''b'' \<mapsto> [(2, 0)]], idCtr := 2,
                             chanHeap := [\<lparr>chan_cap = 1, chan_len = 0\<rparr>, \<lparr>chan_cap = 1, chan_len = 1\<rparr>]\<rparr>)"
  by (simp add: sampleSchedule_def nextId_def addWatcher_def Let_def make_chan_def
        notifyWatchers_def selectSend_def send_def removeWatcher_def
        sampleFetcher_def newStatusFetcher_def fun_upd_twist)

theorem registry_invariants_witness:
  "fst (run sampleSchedule (sampleFetcher [] [])) = [1, 2] \<and>
   distinct (fst (run sampleSchedule (sampleFetcher [] []))) \<and>
   watchers (snd (run sampleSchedule (sampleFetcher [] []))) ''a'' = None \<and>
   \<not> registered (snd (run sampleSchedule (sampleFetcher [] []))) ''a'' 1 \<and>
   registered (snd (run sampleSchedule (sampleFetcher [] []))) ''b'' 2 \<and>
   removeWatcher ''a'' 1 (snd (run sampleSchedule (sampleFetcher [] []))) =
     ([''Failed to look up watcher for deletion.''], snd (run sampleSchedule (sampleFetcher [] []))) \<and>
   watchers (snd (removeWatcher ''b'' 2 (snd (run sampleSchedule (sampleFetcher [] []))))) ''b'' = None"
proof -
  let ?ids = "fst (run sampleSchedule (sampleFetcher [] []))"
  let ?sf = "snd (run sampleSchedule (sampleFetcher [] []))"
  obtain P E N where new: "(sampleFetcher [] [] :: string statusFetcher) = newStatusFetcher P E N"
    by (simp add: sampleFetcher_def)
  have eq: "run sampleSchedule (newStatusFetcher P E N) = (?ids, ?sf)"
    by (simp add: new [symmetric])
  note th = registry_invariants [OF eq]
  note th1 = th [THEN conjunct1]
  note th2 = th [THEN conjunct2, THEN conjunct1, rule_format]
  note th3 = th [THEN conjunct2, THEN conjunct2, rule_format]
  have ids: "?ids = [1, 2]" by (simp add: sample_run)
  have w: "watchers ?sf = [''b'' \<mapsto> [(2, 0)]]" by (simp add: sample_run)
  have len: "length ?ids \<le> 2 ^ 64" by (simp add: ids)
  have d: "distinct ?ids" using th1 len by blast
  have a: "watchers ?sf ''a'' = None" by (simp add: w)
  have na: "\<not> registered ?sf ''a'' 1"
    using th2 [of "''a''"] a by blast
  have "watchers ?sf ''b'' \<noteq> None" by (simp add: w)
  then obtain ident where r: "registered ?sf ''b'' ident"
    using th2 [of "''b''"] by blast
  have only: "\<forall>ident'. registered ?sf ''b'' ident' \<longrightarrow> ident' = 2"
    by (simp add: registered_def w)
  then have b: "registered ?sf ''b'' 2" using r by auto
  have rm: "removeWatcher ''a'' 1 ?sf = ([''Failed to look up watcher for deletion.''], ?sf)"
    using th3 [of "''a''" 1] a by blast
  have del: "watchers (snd (removeWatcher ''b'' 2 ?sf)) ''b'' = None"
    using th3 [of "''b''" 2] only by blast
  show ?thesis using ids d a na b rm del by blast
qed

lemma watch_repeat_idCtr:
  "idCtr ((afterWatch namespace ^^ n) sf) = idCtr sf + of_nat n"
  by (induction n)
     (simp_all add: afterWatch_def Watch_def nextId_def addWatcher_def Let_def split: prod.splits)

lemma watch_ident: "snd (fst (Watch namespace sf)) = (namespace, idCtr sf + 1)"
  by (simp add: Watch_def nextId_def addWatcher_def Let_def split: prod.splits)

text \<open>
  Claim C9 as it is written fails once the counter has wrapped around: after \<open>2^64\<close>
  calls of \<^verbatim>\<open>Watch\<close> the next call hands out the id that the first call handed out.
\<close>

theorem watch_id_wraps_counterexample:
  "snd (snd (fst (Watch ''sandbox'' ((afterWatch ''sandbox'' ^^ (2 ^ 64)) (sampleFetcher [] []))))) =
   snd (snd (fst (Watch ''sandbox'' (sampleFetcher [] []))))"
  by (simp add: watch_ident watch_repeat_idCtr)

end
